theory Spec2Isabelle
  imports Main "HOL-Library.Word" "HOL-Library.Log_Nat"
begin

section \<open>JavaScript values\<close>

text \<open>
  The repository's logic under verification is \<^verbatim>\<open>src/schemas.ts\<close>: a set of Zod schemas
  over JavaScript values.  The schemas are embedded together with the parts of JavaScript
  and of Zod (version 3, the line that has \<^verbatim>\<open>z.nativeEnum\<close>) they run on: strings,
  numbers, \<^verbatim>\<open>Number(string)\<close>, and the \<^verbatim>\<open>_parse\<close> methods of the schema classes used.

  A JavaScript string is a sequence of UTF-16 code units.  A JavaScript number is an
  IEEE 754 binary64 value: \<open>NaN\<close>, an infinity, or a finite double, given by the rational it
  denotes.  The two zeros are identified: every operation the schemas apply to a number
  (\<^verbatim>\<open>isNaN\<close>, \<^verbatim>\<open>Number.isInteger\<close>, the comparisons) treats them alike.  Of the values a
  caller can pass, the primitives, arrays and plain objects are modelled; an object is the
  list of its own properties.
\<close>

type_synonym jsstring = "16 word list"

definition js :: "string \<Rightarrow> jsstring" where
  "js s = map of_char s"

datatype jsnumber = NaN | PosInf | NegInf | Fin rat

datatype jsval =
    JUndefined
  | JNull
  | JBool bool
  | JNum jsnumber
  | JStr jsstring
  | JArray "jsval list"
  | JObject "(jsstring \<times> jsval) list"

subsection \<open>Numbers\<close>

definition isInteger :: "jsnumber \<Rightarrow> bool" where
  "isInteger x = (case x of Fin q \<Rightarrow> of_int \<lfloor>q\<rfloor> = q | _ \<Rightarrow> False)"

fun js_less :: "jsnumber \<Rightarrow> jsnumber \<Rightarrow> bool" where
  "js_less NaN _ = False"
| "js_less _ NaN = False"
| "js_less (Fin a) (Fin b) = (a < b)"
| "js_less PosInf _ = False"
| "js_less _ NegInf = False"
| "js_less NegInf _ = True"
| "js_less _ PosInf = True"

fun js_neg :: "jsnumber \<Rightarrow> jsnumber" where
  "js_neg NaN = NaN"
| "js_neg PosInf = NegInf"
| "js_neg NegInf = PosInf"
| "js_neg (Fin q) = Fin (- q)"

text \<open>Rounding of a rational to the nearest double, ties to even, with gradual underflow
  and overflow to the infinities.\<close>

definition pow2 :: "int \<Rightarrow> rat" where
  "pow2 e = (if 0 \<le> e then 2 ^ nat e else 1 / 2 ^ nat (- e))"

definition ilog2 :: "rat \<Rightarrow> int" where
  "ilog2 q = (case quotient_of q of (a, b) \<Rightarrow>
     let k = bitlen a - bitlen b in if pow2 k \<le> q then k else k - 1)"

definition round_half_even :: "rat \<Rightarrow> int" where
  "round_half_even q =
     (let f = \<lfloor>q\<rfloor>; d = q - of_int f
      in if d < 1 / 2 then f else if 1 / 2 < d then f + 1 else if even f then f else f + 1)"

definition to_double :: "rat \<Rightarrow> jsnumber" where
  "to_double q =
     (if q = 0 then Fin 0
      else
        let e = max (ilog2 \<bar>q\<bar> - 52) (- 1074);
            v = of_int (round_half_even (\<bar>q\<bar> / pow2 e)) * pow2 e
        in if pow2 1024 \<le> v then (if 0 < q then PosInf else NegInf)
           else Fin (sgn q * v))"

subsection \<open>\<^verbatim>\<open>Number(string)\<close>: the StringToNumber conversion\<close>

definition isStrWhiteSpaceChar :: "16 word \<Rightarrow> bool" where
  "isStrWhiteSpaceChar c \<longleftrightarrow>
     c \<in> set [0x9, 0xA, 0xB, 0xC, 0xD, 0x20, 0xA0, 0x1680, 0x2028, 0x2029, 0x202F, 0x205F,
              0x3000, 0xFEFF]
     \<or> (0x2000 \<le> c \<and> c \<le> 0x200A)"

definition trim :: "jsstring \<Rightarrow> jsstring" where
  "trim s = rev (dropWhile isStrWhiteSpaceChar (rev (dropWhile isStrWhiteSpaceChar s)))"

definition digit_of :: "16 word \<Rightarrow> nat option" where
  "digit_of c =
     (if 0x30 \<le> c \<and> c \<le> 0x39 then Some (unat c - 48)
      else if 0x61 \<le> c \<and> c \<le> 0x66 then Some (unat c - 87)
      else if 0x41 \<le> c \<and> c \<le> 0x46 then Some (unat c - 55)
      else None)"

definition isDigit :: "nat \<Rightarrow> 16 word \<Rightarrow> bool" where
  "isDigit base c = (case digit_of c of Some d \<Rightarrow> d < base | None \<Rightarrow> False)"

definition digits_value :: "nat \<Rightarrow> jsstring \<Rightarrow> nat" where
  "digits_value base ds = foldl (\<lambda>a c. a * base + the (digit_of c)) 0 ds"

definition parse_NonDecimalIntegerLiteral :: "jsstring \<Rightarrow> nat option" where
  "parse_NonDecimalIntegerLiteral s =
     (case s of
        c0 # c1 # ds \<Rightarrow>
          if c0 = 0x30 \<and> ds \<noteq> [] then
            (if (c1 = 0x78 \<or> c1 = 0x58) \<and> list_all (isDigit 16) ds then Some (digits_value 16 ds)
             else if (c1 = 0x6F \<or> c1 = 0x4F) \<and> list_all (isDigit 8) ds then Some (digits_value 8 ds)
             else if (c1 = 0x62 \<or> c1 = 0x42) \<and> list_all (isDigit 2) ds then Some (digits_value 2 ds)
             else None)
          else None
      | _ \<Rightarrow> None)"

definition parse_SignedInteger :: "jsstring \<Rightarrow> int option" where
  "parse_SignedInteger s =
     (case s of
        [] \<Rightarrow> None
      | c # r \<Rightarrow>
          let neg = (c = 0x2D); ds = (if c = 0x2B \<or> c = 0x2D then r else s)
          in if ds \<noteq> [] \<and> list_all (isDigit 10) ds
             then Some ((if neg then - 1 else 1) * int (digits_value 10 ds))
             else None)"

definition parse_ExponentPart_opt :: "jsstring \<Rightarrow> int option" where
  "parse_ExponentPart_opt s =
     (case s of
        [] \<Rightarrow> Some 0
      | c # r \<Rightarrow> if c = 0x65 \<or> c = 0x45 then parse_SignedInteger r else None)"

definition parse_StrUnsignedDecimalLiteral :: "jsstring \<Rightarrow> jsnumber option" where
  "parse_StrUnsignedDecimalLiteral s =
     (if s = js ''Infinity'' then Some PosInf
      else
        let ip = takeWhile (isDigit 10) s;
            r1 = dropWhile (isDigit 10) s;
            dot = (r1 \<noteq> [] \<and> hd r1 = 0x2E);
            fp = (if dot then takeWhile (isDigit 10) (tl r1) else []);
            r2 = (if dot then dropWhile (isDigit 10) (tl r1) else r1)
        in if ip = [] \<and> fp = [] then None
           else
             (case parse_ExponentPart_opt r2 of
                None \<Rightarrow> None
              | Some ex \<Rightarrow>
                  Some (to_double
                    ((of_nat (digits_value 10 ip)
                       + of_nat (digits_value 10 fp) / 10 ^ length fp)
                     * (if 0 \<le> ex then 10 ^ nat ex else 1 / 10 ^ nat (- ex))))))"

definition parse_StrDecimalLiteral :: "jsstring \<Rightarrow> jsnumber option" where
  "parse_StrDecimalLiteral s =
     (case s of
        [] \<Rightarrow> None
      | c # r \<Rightarrow>
          if c = 0x2B then parse_StrUnsignedDecimalLiteral r
          else if c = 0x2D then map_option js_neg (parse_StrUnsignedDecimalLiteral r)
          else parse_StrUnsignedDecimalLiteral s)"

definition StringToNumber :: "jsstring \<Rightarrow> jsnumber" where
  "StringToNumber s =
     (let t = trim s
      in if t = [] then Fin 0
         else
           (case parse_NonDecimalIntegerLiteral t of
              Some n \<Rightarrow> to_double (of_nat n)
            | None \<Rightarrow>
                (case parse_StrDecimalLiteral t of Some x \<Rightarrow> x | None \<Rightarrow> NaN)))"


text \<open>\<^verbatim>\<open>Number(value)\<close> on a primitive.  The schemas only call it behind \<^verbatim>\<open>z.string()\<close>, so the
  object cases (which would run \<^verbatim>\<open>ToPrimitive\<close>) are never reached; they are mapped to
  \<open>NaN\<close>.\<close>

fun Number :: "jsval \<Rightarrow> jsnumber" where
  "Number JUndefined = NaN"
| "Number JNull = Fin 0"
| "Number (JBool b) = (if b then Fin 1 else Fin 0)"
| "Number (JNum x) = x"
| "Number (JStr s) = StringToNumber s"
| "Number (JArray _) = NaN"
| "Number (JObject _) = NaN"

definition isNaN :: "jsval \<Rightarrow> bool" where
  "isNaN v = (Number v = NaN)"

section \<open>Zod 3: parse results, issues and the schema combinators used\<close>

text \<open>
  A Zod schema's \<^verbatim>\<open>_parse\<close> returns a status with a value (\<^verbatim>\<open>valid\<close>, \<^verbatim>\<open>dirty\<close>) or
  \<^verbatim>\<open>aborted\<close> (\<^verbatim>\<open>INVALID\<close>), and appends issues to the context.  A schema is modelled as
  a function of the current path and the data that returns the status and the issues it
  appended, in order.  Of an issue, the code, the path and (for unions) the nested
  errors are kept; the message is dropped.
\<close>

datatype zcode = invalid_type | invalid_enum_value | invalid_union | too_small | too_big | custom

datatype zissue = ZodIssue (code: zcode) (path: "jsstring list") (unionErrors: "zissue list list")

datatype parse_return = OK jsval | DIRTY jsval | INVALID

type_synonym schema = "jsstring list \<Rightarrow> jsval \<Rightarrow> parse_return \<times> zissue list"

fun isValid :: "parse_return \<Rightarrow> bool" where
  "isValid (OK _) = True"
| "isValid _ = False"

fun value_of :: "parse_return \<Rightarrow> jsval" where
  "value_of (OK v) = v"
| "value_of (DIRTY v) = v"
| "value_of INVALID = JUndefined"

definition safeParse :: "schema \<Rightarrow> jsval \<Rightarrow> zissue list + jsval" where
  "safeParse sch d = (case sch [] d of (OK v, _) \<Rightarrow> Inr v | (_, is) \<Rightarrow> Inl is)"

definition success :: "zissue list + jsval \<Rightarrow> bool" where
  "success r = (case r of Inr _ \<Rightarrow> True | Inl _ \<Rightarrow> False)"

subsection \<open>\<^verbatim>\<open>z.string()\<close> with \<^verbatim>\<open>min\<close> and \<^verbatim>\<open>max\<close>\<close>

datatype string_check = SMin nat | SMax nat

fun string_check_issues :: "jsstring list \<Rightarrow> jsstring \<Rightarrow> string_check \<Rightarrow> zissue list" where
  "string_check_issues p s (SMin n) = (if length s < n then [ZodIssue too_small p []] else [])"
| "string_check_issues p s (SMax n) = (if length s > n then [ZodIssue too_big p []] else [])"

definition ZodString :: "string_check list \<Rightarrow> schema" where
  "ZodString checks p d =
     (case d of
        JStr s \<Rightarrow>
          let is = concat (map (string_check_issues p s) checks)
          in (if is = [] then OK d else DIRTY d, is)
      | _ \<Rightarrow> (INVALID, [ZodIssue invalid_type p []]))"

subsection \<open>\<^verbatim>\<open>z.number()\<close> with \<^verbatim>\<open>int\<close>, \<^verbatim>\<open>min\<close> and \<^verbatim>\<open>max\<close>\<close>

datatype number_check = NInt | NMin jsnumber | NMax jsnumber

fun number_check_issues :: "jsstring list \<Rightarrow> jsnumber \<Rightarrow> number_check \<Rightarrow> zissue list" where
  "number_check_issues p x NInt = (if \<not> isInteger x then [ZodIssue invalid_type p []] else [])"
| "number_check_issues p x (NMin m) = (if js_less x m then [ZodIssue too_small p []] else [])"
| "number_check_issues p x (NMax m) = (if js_less m x then [ZodIssue too_big p []] else [])"

text \<open>Zod's parsed type of a \<open>NaN\<close> is \<^verbatim>\<open>nan\<close>, not \<^verbatim>\<open>number\<close>: \<^verbatim>\<open>z.number()\<close> rejects it.\<close>

definition ZodNumber :: "number_check list \<Rightarrow> schema" where
  "ZodNumber checks p d =
     (case d of
        JNum x \<Rightarrow>
          if x = NaN then (INVALID, [ZodIssue invalid_type p []])
          else
            let is = concat (map (number_check_issues p x) checks)
            in (if is = [] then OK d else DIRTY d, is)
      | _ \<Rightarrow> (INVALID, [ZodIssue invalid_type p []]))"

subsection \<open>\<^verbatim>\<open>.default\<close>, \<^verbatim>\<open>.transform\<close>, \<^verbatim>\<open>.refine\<close>\<close>

definition ZodDefault :: "jsval \<Rightarrow> schema \<Rightarrow> schema" where
  "ZodDefault defaultValue innerType p d = innerType p (if d = JUndefined then defaultValue else d)"

definition transform :: "(jsval \<Rightarrow> jsval) \<Rightarrow> schema \<Rightarrow> schema" where
  "transform f sch p d = (case sch p d of (OK v, is) \<Rightarrow> (OK (f v), is) | base \<Rightarrow> base)"

text \<open>A failed refinement adds a \<^verbatim>\<open>custom\<close> issue and makes the result dirty; it does not
  abort, and it also runs on a value that is already dirty.\<close>

definition refine :: "(jsval \<Rightarrow> bool) \<Rightarrow> schema \<Rightarrow> schema" where
  "refine check sch p d =
     (case sch p d of
        (INVALID, is) \<Rightarrow> (INVALID, is)
      | (DIRTY v, is) \<Rightarrow> (DIRTY v, is @ (if check v then [] else [ZodIssue custom p []]))
      | (OK v, is) \<Rightarrow>
          if check v then (OK v, is) else (DIRTY v, is @ [ZodIssue custom p []]))"

subsection \<open>\<^verbatim>\<open>z.union\<close>\<close>

text \<open>The synchronous loop of \<^verbatim>\<open>ZodUnion._parse\<close>: the first valid option wins; otherwise the
  first dirty option is returned with its issues; otherwise one \<^verbatim>\<open>invalid_union\<close> issue
  collects the issues of the options.\<close>

fun union_loop ::
  "schema list \<Rightarrow> jsstring list \<Rightarrow> jsval \<Rightarrow> (jsval \<times> zissue list) option \<Rightarrow> zissue list list
    \<Rightarrow> parse_return \<times> zissue list" where
  "union_loop [] p d dirty issues =
     (case dirty of
        Some (v, is) \<Rightarrow> (DIRTY v, is)
      | None \<Rightarrow> (INVALID, [ZodIssue invalid_union p issues]))"
| "union_loop (option # options) p d dirty issues =
     (case option p d of
        (OK v, is) \<Rightarrow> (OK v, [])
      | (DIRTY v, is) \<Rightarrow>
          union_loop options p d (if dirty = None then Some (v, is) else dirty)
            (if is \<noteq> [] then issues @ [is] else issues)
      | (INVALID, is) \<Rightarrow>
          union_loop options p d dirty (if is \<noteq> [] then issues @ [is] else issues))"

definition ZodUnion :: "schema list \<Rightarrow> schema" where
  "ZodUnion options p d = union_loop options p d None []"

subsection \<open>\<^verbatim>\<open>z.nativeEnum\<close>\<close>

definition ZodNativeEnum :: "jsval list \<Rightarrow> schema" where
  "ZodNativeEnum nativeEnumValues p d =
     (if \<not> (case d of JStr _ \<Rightarrow> True | JNum x \<Rightarrow> x \<noteq> NaN | _ \<Rightarrow> False)
      then (INVALID, [ZodIssue invalid_type p []])
      else if d \<notin> set nativeEnumValues then (INVALID, [ZodIssue invalid_enum_value p []])
      else (OK d, []))"

subsection \<open>\<^verbatim>\<open>z.object\<close> and \<^verbatim>\<open>.extend\<close>\<close>

definition get_prop :: "(jsstring \<times> jsval) list \<Rightarrow> jsstring \<Rightarrow> jsval" where
  "get_prop props key = (case map_of props key of Some v \<Rightarrow> v | None \<Rightarrow> JUndefined)"

fun set_prop :: "(jsstring \<times> jsval) list \<Rightarrow> jsstring \<Rightarrow> jsval \<Rightarrow> (jsstring \<times> jsval) list" where
  "set_prop [] key v = [(key, v)]"
| "set_prop ((k, x) # props) key v =
     (if k = key then (k, v) # props else (k, x) # set_prop props key v)"

text \<open>\<^verbatim>\<open>ParseStatus.mergeObjectSync\<close>: a pair is the key, the parse result of its value and
  whether the key is present in the input.\<close>

fun mergeObjectSync ::
  "bool \<Rightarrow> (jsstring \<times> jsval) list \<Rightarrow> (jsstring \<times> parse_return \<times> bool) list \<Rightarrow> parse_return" where
  "mergeObjectSync dirty finalObject [] =
     (if dirty then DIRTY (JObject finalObject) else OK (JObject finalObject))"
| "mergeObjectSync dirty finalObject ((key, r, alwaysSet) # pairs) =
     (case r of
        INVALID \<Rightarrow> INVALID
      | _ \<Rightarrow>
          mergeObjectSync (dirty \<or> \<not> isValid r)
            (if key \<noteq> js ''__proto__'' \<and> (value_of r \<noteq> JUndefined \<or> alwaysSet)
             then set_prop finalObject key (value_of r) else finalObject)
            pairs)"

text \<open>An object schema with the default policy for unknown keys (they are stripped).  Every
  field is parsed before the results are merged, so the issues of all fields are reported.\<close>

definition ZodObject :: "(jsstring \<times> schema) list \<Rightarrow> schema" where
  "ZodObject shape p d =
     (case d of
        JObject props \<Rightarrow>
          (mergeObjectSync False []
             (map (\<lambda>(key, keyValidator).
                     (key, fst (keyValidator (p @ [key]) (get_prop props key)),
                      key \<in> fst ` set props)) shape),
           concat (map (\<lambda>(key, keyValidator).
                     snd (keyValidator (p @ [key]) (get_prop props key))) shape))
      | _ \<Rightarrow> (INVALID, [ZodIssue invalid_type p []]))"

definition extend_shape :: "(jsstring \<times> schema) list \<Rightarrow> (jsstring \<times> schema) list \<Rightarrow> (jsstring \<times> schema) list" where
  "extend_shape shape augmentation =
     map (\<lambda>(k, s). (k, case map_of augmentation k of Some s' \<Rightarrow> s' | None \<Rightarrow> s)) shape
     @ filter (\<lambda>(k, s). k \<notin> fst ` set shape) augmentation"

section \<open>The schemas of \<^verbatim>\<open>src/schemas.ts\<close>\<close>

text \<open>\<^verbatim>\<open>const { LIQPAY_PUBLIC_KEY = '', URL } = process.env\<close>: an environment variable is a
  string or is unset.\<close>

record env =
  env_LIQPAY_PUBLIC_KEY :: "jsstring option"
  env_URL :: "jsstring option"

definition LIQPAY_PUBLIC_KEY :: "env \<Rightarrow> jsstring" where
  "LIQPAY_PUBLIC_KEY e = (case env_LIQPAY_PUBLIC_KEY e of None \<Rightarrow> [] | Some k \<Rightarrow> k)"

definition URL :: "env \<Rightarrow> jsstring option" where
  "URL e = env_URL e"

definition PaymentAction :: "jsval list" where
  "PaymentAction = [JStr (js ''pay''), JStr (js ''hold''), JStr (js ''subscribe''), JStr (js ''paydonate'')]"

definition PaymentCurrency :: "jsval list" where
  "PaymentCurrency = [JStr (js ''UAH''), JStr (js ''USD''), JStr (js ''EUR'')]"

definition PaymentLanguage :: "jsval list" where
  "PaymentLanguage = [JStr (js ''uk''), JStr (js ''en'')]"

definition LiqpayPeriodicity :: "jsval list" where
  "LiqpayPeriodicity = [JStr (js ''day''), JStr (js ''month''), JStr (js ''year'')]"

definition MaybeStringifiedNumberSchema :: schema where
  "MaybeStringifiedNumberSchema =
     ZodUnion
       [refine (\<lambda>value. \<not> isNaN value) (transform (\<lambda>value. JNum (Number value)) (ZodString [])),
        ZodNumber []]"

definition ShortStringSchema :: schema where
  "ShortStringSchema = ZodString [SMin 1, SMax 200]"

definition LiqpayAPIVersionSchema :: schema where
  "LiqpayAPIVersionSchema = ZodDefault (JNum (Fin 3)) (ZodNumber [NInt, NMin (Fin 1), NMax (Fin 3)])"

definition LiqpayAmountSchema :: schema where
  "LiqpayAmountSchema =
     ZodDefault (JNum (Fin 20)) (ZodNumber [NInt, NMin (Fin 1), NMax (Fin 10000)])"

definition amount_schema :: schema where
  "amount_schema =
     refine (\<lambda>value. let r = safeParse LiqpayAmountSchema value in success r)
       (ZodDefault (JNum (Fin 20)) MaybeStringifiedNumberSchema)"

definition currency_schema :: schema where
  "currency_schema = ZodDefault (JStr (js ''UAH'')) (ZodNativeEnum PaymentCurrency)"

definition action_schema :: schema where
  "action_schema = ZodDefault (JStr (js ''pay'')) (ZodNativeEnum PaymentAction)"

definition subscribe_periodicity_schema :: schema where
  "subscribe_periodicity_schema = ZodDefault (JStr (js ''month'')) (ZodNativeEnum LiqpayPeriodicity)"

definition UserCNB_shape :: "(jsstring \<times> schema) list" where
  "UserCNB_shape =
     [(js ''amount'', amount_schema),
      (js ''currency'', currency_schema),
      (js ''action'', action_schema),
      (js ''subscribe_periodicity'', subscribe_periodicity_schema)]"

definition UserCNBSchema :: schema where
  "UserCNBSchema = ZodObject UserCNB_shape"

definition public_key_schema :: "env \<Rightarrow> schema" where
  "public_key_schema e =
     ZodDefault (JStr (LIQPAY_PUBLIC_KEY e))
       (refine (\<lambda>value. value = JStr (LIQPAY_PUBLIC_KEY e)) (ZodString []))"

definition version_schema :: schema where
  "version_schema =
     refine (\<lambda>value. let r = safeParse LiqpayAPIVersionSchema value in success r)
       (ZodDefault (JNum (Fin 3)) MaybeStringifiedNumberSchema)"

text \<open>The default description, \<^verbatim>\<open>U+041F U+043E U+0436 ...\<close> followed by \<^verbatim>\<open>Soulful\<close>: 24 code
  units.\<close>

definition default_description :: jsstring where
  "default_description =
     [0x41F, 0x43E, 0x436, 0x435, 0x440, 0x442, 0x432, 0x430, 0x20,
      0x43A, 0x43E, 0x43C, 0x430, 0x43D, 0x434, 0x456, 0x20] @ js ''Soulful''"

definition description_schema :: schema where
  "description_schema = ZodDefault (JStr default_description) ShortStringSchema"

definition language_schema :: schema where
  "language_schema = ZodDefault (JStr (js ''uk'')) (ZodNativeEnum PaymentLanguage)"

definition subscribe_date_start_schema :: schema where
  "subscribe_date_start_schema = ZodDefault (JStr (js ''2024-01-01 00:00:00'')) (ZodString [])"

text \<open>The template literal \<^verbatim>\<open>`${URL}/donate/thankyou`\<close>; an unset \<^verbatim>\<open>URL\<close> prints as
  \<^verbatim>\<open>undefined\<close>.\<close>

definition default_result_url :: "env \<Rightarrow> jsstring" where
  "default_result_url e =
     (case URL e of None \<Rightarrow> js ''undefined'' | Some u \<Rightarrow> u) @ js ''/donate/thankyou''"

definition result_url_schema :: "env \<Rightarrow> schema" where
  "result_url_schema e = ZodDefault (JStr (default_result_url e)) (ZodString [])"

definition CNB_shape :: "env \<Rightarrow> (jsstring \<times> schema) list" where
  "CNB_shape e =
     extend_shape UserCNB_shape
       [(js ''public_key'', public_key_schema e),
        (js ''version'', version_schema),
        (js ''description'', description_schema),
        (js ''language'', language_schema),
        (js ''subscribe_date_start'', subscribe_date_start_schema),
        (js ''result_url'', result_url_schema e)]"

definition CNBSchema :: "env \<Rightarrow> schema" where
  "CNBSchema e = ZodObject (CNB_shape e)"

section \<open>Notions used in the statements\<close>

text \<open>A number that is an integer between two bounds.\<close>

definition integer_between :: "int \<Rightarrow> int \<Rightarrow> jsnumber \<Rightarrow> bool" where
  "integer_between lo hi x =
     (case x of Fin q \<Rightarrow> of_int \<lfloor>q\<rfloor> = q \<and> of_int lo \<le> q \<and> q \<le> of_int hi | _ \<Rightarrow> False)"

definition add_pair ::
  "(jsstring \<times> jsval) list \<Rightarrow> jsstring \<times> parse_return \<times> bool \<Rightarrow> (jsstring \<times> jsval) list" where
  "add_pair fin pr =
     (case pr of (key, r, alwaysSet) \<Rightarrow>
        if key \<noteq> js ''__proto__'' \<and> (value_of r \<noteq> JUndefined \<or> alwaysSet)
        then set_prop fin key (value_of r) else fin)"

definition field_results :: "env \<Rightarrow> (jsstring \<times> jsval) list \<Rightarrow> (jsstring \<times> parse_return \<times> bool) list" where
  "field_results e props =
     map (\<lambda>(key, keyValidator).
            (key, fst (keyValidator [key] (get_prop props key)), key \<in> fst ` set props))
       (CNB_shape e)"

definition field_issues :: "env \<Rightarrow> (jsstring \<times> jsval) list \<Rightarrow> zissue list" where
  "field_issues e props =
     concat (map (\<lambda>(key, keyValidator). snd (keyValidator [key] (get_prop props key))) (CNB_shape e))"

definition fields_valid :: "env \<Rightarrow> (jsstring \<times> jsval) list \<Rightarrow> bool" where
  "fields_valid e props =
     list_all (\<lambda>(key, keyValidator). isValid (fst (keyValidator [key] (get_prop props key))))
       (CNB_shape e)"

definition others_valid :: "env \<Rightarrow> jsstring list \<Rightarrow> (jsstring \<times> jsval) list \<Rightarrow> bool" where
  "others_valid e excluded props =
     list_all (\<lambda>(key, keyValidator).
                 key \<in> set excluded \<or> isValid (fst (keyValidator [key] (get_prop props key))))
       (CNB_shape e)"

definition union_invalid :: "jsstring list \<Rightarrow> zissue" where
  "union_invalid p = ZodIssue invalid_union p [[ZodIssue invalid_type p []], [ZodIssue invalid_type p []]]"

text \<open>The defaults the specification documents, as the object a caller would receive.\<close>

definition documented_defaults :: "jsstring \<Rightarrow> jsstring \<Rightarrow> jsval" where
  "documented_defaults key baseUrl =
     JObject
       [(js ''amount'', JNum (Fin 20)),
        (js ''currency'', JStr (js ''UAH'')),
        (js ''action'', JStr (js ''pay'')),
        (js ''subscribe_periodicity'', JStr (js ''month'')),
        (js ''public_key'', JStr key),
        (js ''version'', JNum (Fin 3)),
        (js ''description'', JStr default_description),
        (js ''language'', JStr (js ''uk'')),
        (js ''subscribe_date_start'', JStr (js ''2024-01-01 00:00:00'')),
        (js ''result_url'', JStr (baseUrl @ js ''/donate/thankyou''))]"

definition digit_char :: "nat \<Rightarrow> 16 word" where
  "digit_char d = of_nat (48 + d)"

fun decimal :: "nat \<Rightarrow> jsstring" where
  "decimal n = (if n < 10 then [digit_char n] else decimal (n div 10) @ [digit_char (n mod 10)])"

declare decimal.simps [simp del]

definition enum_fields :: "(jsstring \<times> jsstring list) list" where
  "enum_fields =
     [(js ''currency'', [js ''UAH'', js ''USD'', js ''EUR'']),
      (js ''action'', [js ''pay'', js ''hold'', js ''subscribe'', js ''paydonate'']),
      (js ''subscribe_periodicity'', [js ''day'', js ''month'', js ''year'']),
      (js ''language'', [js ''uk'', js ''en''])]"

text \<open>The issues a failed validation reports, without their multiplicity.\<close>

definition issue_kinds :: "zissue list + jsval \<Rightarrow> zissue set" where
  "issue_kinds r = (case r of Inl iss \<Rightarrow> set iss | Inr _ \<Rightarrow> {})"

section \<open>Properties of the combinators and of the field schemas\<close>

lemma unat_of_char: "unat (of_char c :: 16 word) = of_char c"
proof -
  have "(of_char c :: 16 word) = of_nat (of_char c)"
    by (simp add: of_nat_of_char)
  moreover have "(of_char c :: nat) < 2 ^ 16"
    by (rule less_trans [OF nat_of_char_less_256]) simp
  ultimately show ?thesis
    by (simp add: unat_of_nat)
qed

lemma js_eq_iff [simp]: "js a = js b \<longleftrightarrow> a = b"
proof -
  have "inj (of_char :: char \<Rightarrow> 16 word)"
  proof (rule injI)
    fix c d :: char
    assume "(of_char c :: 16 word) = of_char d"
    then have "unat (of_char c :: 16 word) = unat (of_char d :: 16 word)" by simp
    then show "c = d" by (simp add: unat_of_char)
  qed
  then show ?thesis unfolding js_def by (simp add: inj_map_eq_map)
qed

lemma length_js [simp]: "length (js s) = length s"
  by (simp add: js_def)

lemma integer_between_iff:
  "integer_between lo hi x \<longleftrightarrow> (\<exists>n. x = Fin (of_int n) \<and> lo \<le> n \<and> n \<le> hi)"
proof
  assume "integer_between lo hi x"
  then obtain q where q: "x = Fin q" "of_int \<lfloor>q\<rfloor> = q" "of_int lo \<le> q" "q \<le> of_int hi"
    by (auto simp: integer_between_def split: jsnumber.splits)
  from q(2,3,4) have "lo \<le> \<lfloor>q\<rfloor>" "\<lfloor>q\<rfloor> \<le> hi"
    by (metis of_int_le_iff)+
  with q show "\<exists>n. x = Fin (of_int n) \<and> lo \<le> n \<and> n \<le> hi"
    by metis
next
  assume "\<exists>n. x = Fin (of_int n) \<and> lo \<le> n \<and> n \<le> hi"
  then show "integer_between lo hi x"
    by (auto simp: integer_between_def)
qed

lemma number_range_schema:
  "success (safeParse (ZodDefault dv (ZodNumber [NInt, NMin (Fin (of_int lo)), NMax (Fin (of_int hi))])) (JNum x))
     = integer_between lo hi x"
  by (cases x) (auto simp: success_def safeParse_def ZodDefault_def ZodNumber_def isInteger_def
      integer_between_def)

lemma LiqpayAmountSchema_success:
  "success (safeParse LiqpayAmountSchema (JNum x)) = integer_between 1 10000 x"
  using number_range_schema [of "JNum (Fin 20)" 1 10000 x] by (simp add: LiqpayAmountSchema_def)

lemma LiqpayAPIVersionSchema_success:
  "success (safeParse LiqpayAPIVersionSchema (JNum x)) = integer_between 1 3 x"
  using number_range_schema [of "JNum (Fin 3)" 1 3 x] by (simp add: LiqpayAPIVersionSchema_def)

lemma MSN_string:
  "MaybeStringifiedNumberSchema p (JStr s) =
     (if StringToNumber s = NaN then (DIRTY (JNum NaN), [ZodIssue custom p []])
      else (OK (JNum (StringToNumber s)), []))"
  by (simp add: MaybeStringifiedNumberSchema_def ZodUnion_def refine_def transform_def
      ZodString_def ZodNumber_def isNaN_def)

lemma MSN_number:
  "MaybeStringifiedNumberSchema p (JNum x) =
     (if x = NaN then (INVALID, [union_invalid p]) else (OK (JNum x), []))"
  by (simp add: MaybeStringifiedNumberSchema_def ZodUnion_def refine_def transform_def
      ZodString_def ZodNumber_def isNaN_def union_invalid_def)

lemma MSN_other:
  "(\<forall>s. v \<noteq> JStr s) \<Longrightarrow> (\<forall>x. v \<noteq> JNum x) \<Longrightarrow>
   MaybeStringifiedNumberSchema p v = (INVALID, [union_invalid p])"
  by (cases v) (simp_all add: MaybeStringifiedNumberSchema_def ZodUnion_def refine_def transform_def
      ZodString_def ZodNumber_def isNaN_def union_invalid_def)

lemma amount_undefined: "amount_schema p JUndefined = (OK (JNum (Fin 20)), [])"
  by (simp add: amount_schema_def refine_def ZodDefault_def MSN_number LiqpayAmountSchema_success
      integer_between_def)

lemma amount_number:
  "amount_schema p (JNum x) =
     (if x = NaN then (INVALID, [union_invalid p])
      else if integer_between 1 10000 x then (OK (JNum x), [])
      else (DIRTY (JNum x), [ZodIssue custom p []]))"
  by (simp add: amount_schema_def refine_def ZodDefault_def MSN_number LiqpayAmountSchema_success)

lemma amount_string:
  "amount_schema p (JStr s) =
     (if StringToNumber s = NaN then (DIRTY (JNum NaN), [ZodIssue custom p [], ZodIssue custom p []])
      else if integer_between 1 10000 (StringToNumber s) then (OK (JNum (StringToNumber s)), [])
      else (DIRTY (JNum (StringToNumber s)), [ZodIssue custom p []]))"
  by (simp add: amount_schema_def refine_def ZodDefault_def MSN_string LiqpayAmountSchema_success
      integer_between_def)

lemma amount_other:
  "v \<noteq> JUndefined \<Longrightarrow> (\<forall>s. v \<noteq> JStr s) \<Longrightarrow> (\<forall>x. v \<noteq> JNum x) \<Longrightarrow>
   amount_schema p v = (INVALID, [union_invalid p])"
  by (simp add: amount_schema_def refine_def ZodDefault_def MSN_other)

lemma version_undefined: "version_schema p JUndefined = (OK (JNum (Fin 3)), [])"
  by (simp add: version_schema_def refine_def ZodDefault_def MSN_number LiqpayAPIVersionSchema_success
      integer_between_def)

lemma version_number:
  "version_schema p (JNum x) =
     (if x = NaN then (INVALID, [union_invalid p])
      else if integer_between 1 3 x then (OK (JNum x), [])
      else (DIRTY (JNum x), [ZodIssue custom p []]))"
  by (simp add: version_schema_def refine_def ZodDefault_def MSN_number LiqpayAPIVersionSchema_success)

lemma version_string:
  "version_schema p (JStr s) =
     (if StringToNumber s = NaN then (DIRTY (JNum NaN), [ZodIssue custom p [], ZodIssue custom p []])
      else if integer_between 1 3 (StringToNumber s) then (OK (JNum (StringToNumber s)), [])
      else (DIRTY (JNum (StringToNumber s)), [ZodIssue custom p []]))"
  by (simp add: version_schema_def refine_def ZodDefault_def MSN_string LiqpayAPIVersionSchema_success
      integer_between_def)

lemma version_other:
  "v \<noteq> JUndefined \<Longrightarrow> (\<forall>s. v \<noteq> JStr s) \<Longrightarrow> (\<forall>x. v \<noteq> JNum x) \<Longrightarrow>
   version_schema p v = (INVALID, [union_invalid p])"
  by (simp add: version_schema_def refine_def ZodDefault_def MSN_other)

lemma map_of_set_prop: "map_of (set_prop fin k v) k' = (if k' = k then Some v else map_of fin k')"
  by (induction fin k v rule: set_prop.induct) auto

lemma map_of_add_pair_other:
  "k' \<noteq> k \<Longrightarrow> map_of (add_pair fin (k, r, a)) k' = map_of fin k'"
  by (simp add: add_pair_def map_of_set_prop)

lemma map_of_add_pair_same:
  "k \<noteq> js ''__proto__'' \<Longrightarrow> r = OK x \<Longrightarrow> x \<noteq> JUndefined \<Longrightarrow>
   map_of (add_pair fin (k, r, a)) k = Some x"
  by (simp add: add_pair_def map_of_set_prop)

lemma mergeObjectSync_OK_iff:
  "mergeObjectSync dirty fin pairs = OK v \<longleftrightarrow>
     \<not> dirty \<and> list_all (\<lambda>(k, r, a). isValid r) pairs \<and> v = JObject (foldl add_pair fin pairs)"
proof (induction pairs arbitrary: dirty fin)
  case Nil
  then show ?case by auto
next
  case (Cons pr pairs)
  obtain k r a where pr: "pr = (k, r, a)" by (cases pr)
  show ?case
  proof (cases r)
    case (OK x)
    with pr Cons.IH show ?thesis by (simp add: add_pair_def)
  next
    case (DIRTY x)
    with pr Cons.IH show ?thesis by simp
  next
    case INVALID
    with pr show ?thesis by simp
  qed
qed

lemma CNB_shape_eq:
  "CNB_shape e =
     [(js ''amount'', amount_schema),
      (js ''currency'', currency_schema),
      (js ''action'', action_schema),
      (js ''subscribe_periodicity'', subscribe_periodicity_schema),
      (js ''public_key'', public_key_schema e),
      (js ''version'', version_schema),
      (js ''description'', description_schema),
      (js ''language'', language_schema),
      (js ''subscribe_date_start'', subscribe_date_start_schema),
      (js ''result_url'', result_url_schema e)]"
  by (simp add: CNB_shape_def UserCNB_shape_def extend_shape_def)

lemma CNBSchema_object:
  "CNBSchema e [] (JObject props) = (mergeObjectSync False [] (field_results e props), field_issues e props)"
  by (simp add: CNBSchema_def ZodObject_def field_results_def field_issues_def)

lemma fields_valid_results:
  "list_all (\<lambda>(k, r, a). isValid r) (field_results e props) = fields_valid e props"
  by (simp add: field_results_def fields_valid_def list_all_iff split_beta)

lemma safeParse_CNB_Inr_iff:
  "safeParse (CNBSchema e) d = Inr out \<longleftrightarrow>
     (\<exists>props. d = JObject props \<and> fields_valid e props
        \<and> out = JObject (foldl add_pair [] (field_results e props)))"
proof (cases d)
  case (JObject props)
  show ?thesis
  proof (cases "mergeObjectSync False [] (field_results e props)")
    case (OK v)
    then show ?thesis
      using mergeObjectSync_OK_iff [of False "[]" "field_results e props" v] JObject
      by (auto simp: safeParse_def CNBSchema_object fields_valid_results)
  next
    case (DIRTY v)
    then show ?thesis
      using mergeObjectSync_OK_iff [of False "[]" "field_results e props"] JObject
      by (auto simp: safeParse_def CNBSchema_object fields_valid_results)
  next
    case INVALID
    then show ?thesis
      using mergeObjectSync_OK_iff [of False "[]" "field_results e props"] JObject
      by (auto simp: safeParse_def CNBSchema_object fields_valid_results)
  qed
qed (simp_all add: safeParse_def CNBSchema_def ZodObject_def)

lemma safeParse_CNB_Inl:
  assumes "\<not> fields_valid e props"
  shows "safeParse (CNBSchema e) (JObject props) = Inl (field_issues e props)"
proof -
  have "\<And>v. mergeObjectSync False [] (field_results e props) \<noteq> OK v"
    using assms mergeObjectSync_OK_iff [of False "[]" "field_results e props"]
    by (simp add: fields_valid_results)
  then show ?thesis
    by (cases "mergeObjectSync False [] (field_results e props)")
       (auto simp: safeParse_def CNBSchema_object)
qed

lemma final_field:
  assumes "(k, s) \<in> set (CNB_shape e)" "fst (s [k] (get_prop props k)) = OK x" "x \<noteq> JUndefined"
  shows "map_of (foldl add_pair [] (field_results e props)) k = Some x"
  using assms
  by (auto simp: CNB_shape_eq field_results_def map_of_add_pair_other map_of_add_pair_same)

lemmas eval_defs = CNBSchema_def CNB_shape_def UserCNB_shape_def extend_shape_def ZodObject_def
  amount_schema_def currency_schema_def action_schema_def subscribe_periodicity_schema_def
  public_key_schema_def version_schema_def description_schema_def language_schema_def
  subscribe_date_start_schema_def result_url_schema_def MaybeStringifiedNumberSchema_def
  ShortStringSchema_def LiqpayAPIVersionSchema_def LiqpayAmountSchema_def
  ZodDefault_def ZodUnion_def ZodNumber_def ZodString_def ZodNativeEnum_def refine_def transform_def
  safeParse_def success_def get_prop_def PaymentAction_def PaymentCurrency_def PaymentLanguage_def
  LiqpayPeriodicity_def isInteger_def default_description_def LIQPAY_PUBLIC_KEY_def
  default_result_url_def URL_def

lemma isDigit10_iff: "isDigit 10 c \<longleftrightarrow> 48 \<le> unat c \<and> unat c \<le> 57"
  by (auto simp: isDigit_def digit_of_def word_le_nat_alt)

lemma digit_not_space: "isDigit 10 c \<Longrightarrow> \<not> isStrWhiteSpaceChar c"
  by (auto simp: isDigit10_iff isStrWhiteSpaceChar_def word_le_nat_alt)

lemma digit_not_letter:
  assumes "isDigit 10 c"
  shows "c \<noteq> 0x2B" "c \<noteq> 0x2D" "c \<noteq> 0x78" "c \<noteq> 0x58" "c \<noteq> 0x6F" "c \<noteq> 0x4F" "c \<noteq> 0x62"
    "c \<noteq> 0x42" "c \<noteq> 0x49" "c \<noteq> 0x2E" "c \<noteq> 0x65" "c \<noteq> 0x45"
  using assms by (auto simp: isDigit10_iff)

lemma trim_id:
  assumes "s \<noteq> []" "\<not> isStrWhiteSpaceChar (hd s)" "\<not> isStrWhiteSpaceChar (last s)"
  shows "trim s = s"
proof -
  have a: "dropWhile isStrWhiteSpaceChar s = s"
    using assms(1,2) by (cases s) simp_all
  have "rev s \<noteq> []" "\<not> isStrWhiteSpaceChar (hd (rev s))"
    using assms(1,3) by (simp_all add: hd_rev)
  then have "dropWhile isStrWhiteSpaceChar (rev s) = rev s"
    by (cases "rev s") simp_all
  with a show ?thesis by (simp add: trim_def)
qed

lemma digits_not_NonDecimal:
  assumes "list_all (isDigit 10) s"
  shows "parse_NonDecimalIntegerLiteral s = None"
proof (cases s)
  case Nil
  then show ?thesis by (simp add: parse_NonDecimalIntegerLiteral_def)
next
  case (Cons c0 r)
  show ?thesis
  proof (cases r)
    case Nil
    with Cons show ?thesis by (simp add: parse_NonDecimalIntegerLiteral_def)
  next
    case (Cons c1 ds)
    with \<open>s = c0 # r\<close> assms have "isDigit 10 c1" by simp
    from digit_not_letter [OF this] Cons \<open>s = c0 # r\<close> show ?thesis
      by (simp add: parse_NonDecimalIntegerLiteral_def)
  qed
qed

lemma js_Infinity: "js ''Infinity'' = [0x49, 0x6E, 0x66, 0x69, 0x6E, 0x69, 0x74, 0x79]"
  by (simp add: js_def)

lemma digits_StringToNumber:
  assumes "s \<noteq> []" "list_all (isDigit 10) s"
  shows "StringToNumber s = to_double (of_nat (digits_value 10 s))"
proof -
  obtain c r where s: "s = c # r" using assms(1) by (cases s) auto
  have c: "isDigit 10 c" using assms(2) s by simp
  have l: "isDigit 10 (last s)"
    using assms by (simp add: list_all_iff)
  have t: "trim s = s"
    using assms(1) c l s digit_not_space by (intro trim_id) auto
  have inf: "s \<noteq> js ''Infinity''"
    using digit_not_letter(9) [OF c] s by (auto simp: js_Infinity)
  have tw: "takeWhile (isDigit 10) s = s" "dropWhile (isDigit 10) s = []"
    using assms(2) by (simp_all add: list_all_iff)
  have u: "parse_StrUnsignedDecimalLiteral s = Some (to_double (of_nat (digits_value 10 s)))"
    using assms(1) inf
    by (simp add: parse_StrUnsignedDecimalLiteral_def tw parse_ExponentPart_opt_def digits_value_def)
  have d: "parse_StrDecimalLiteral s = parse_StrUnsignedDecimalLiteral s"
    using digit_not_letter(1,2) [OF c] by (simp add: parse_StrDecimalLiteral_def s)
  show ?thesis
    using assms(1) by (simp add: StringToNumber_def t digits_not_NonDecimal [OF assms(2)] d u)
qed

lemma unat_digit_char: "d < 10 \<Longrightarrow> unat (digit_char d) = 48 + d"
  unfolding digit_char_def by (simp only: unat_of_nat) simp

lemma digit_of_digit_char: "d < 10 \<Longrightarrow> digit_of (digit_char d) = Some d"
  by (simp add: digit_of_def word_le_nat_alt unat_digit_char)

lemma isDigit_digit_char: "d < 10 \<Longrightarrow> isDigit 10 (digit_char d)"
  by (simp add: isDigit_def digit_of_digit_char)

lemma digits_value_snoc:
  "digits_value b (ds @ [c]) = digits_value b ds * b + the (digit_of c)"
  by (simp add: digits_value_def)

lemma decimal_digits: "decimal n \<noteq> [] \<and> list_all (isDigit 10) (decimal n) \<and> digits_value 10 (decimal n) = n"
proof (induction n rule: decimal.induct)
  case (1 n)
  show ?case
  proof (cases "n < 10")
    case True
    then show ?thesis
      by (simp add: decimal.simps [of n] isDigit_digit_char digits_value_def digit_of_digit_char)
  next
    case False
    with 1 have ih: "decimal (n div 10) \<noteq> []" "list_all (isDigit 10) (decimal (n div 10))"
      "digits_value 10 (decimal (n div 10)) = n div 10" by simp_all
    from False ih show ?thesis
      by (simp add: decimal.simps [of n] isDigit_digit_char digits_value_snoc digit_of_digit_char)
  qed
qed

lemma spaces_StringToNumber:
  assumes "list_all isStrWhiteSpaceChar s"
  shows "StringToNumber s = Fin 0"
proof -
  have h: "dropWhile isStrWhiteSpaceChar s = []"
    using assms by (simp add: list_all_iff)
  have "trim s = []"
    unfolding trim_def h by simp
  then show ?thesis by (simp add: StringToNumber_def)
qed

lemma round_half_even_of_int: "round_half_even (of_int m) = m"
  by (simp add: round_half_even_def)

lemma quotient_of_of_int: "quotient_of (of_int n) = (n, 1)"
  using quotient_of_int [of n] by (simp add: Rat.of_int_def)

lemma bitlen_one: "bitlen 1 = 1"
  using compute_bitlen [of 1] by simp

lemma to_double_of_int:
  assumes "0 < n" "n < 2 ^ 53"
  shows "to_double (of_int n) = Fin (of_int n)"
proof -
  have b1: "1 \<le> bitlen n"
    using assms(1) bitlen_eq_zero_iff [of n] bitlen_nonneg [of n] by linarith
  have lo: "(2 :: int) ^ nat (bitlen n - 1) \<le> n" and hi: "n < 2 ^ nat (bitlen n)"
    using bitlen_bounds [OF assms(1)] by simp_all
  have b53: "bitlen n \<le> 53"
  proof (rule ccontr)
    assume "\<not> bitlen n \<le> 53"
    then have "53 \<le> nat (bitlen n - 1)" by simp
    then have "(2 :: int) ^ 53 \<le> 2 ^ nat (bitlen n - 1)"
      by (rule power_increasing) simp
    with lo assms(2) show False by linarith
  qed
  have "(of_int ((2 :: int) ^ nat (bitlen n - 1)) :: rat) \<le> of_int n"
    using lo by (simp only: of_int_le_iff)
  then have p: "pow2 (bitlen n - 1) \<le> of_int n"
    using b1 by (simp add: pow2_def)
  have il: "ilog2 (of_int n) = bitlen n - 1"
    using p by (simp add: ilog2_def quotient_of_of_int bitlen_one)
  define k where "k = nat (53 - bitlen n)"
  have e: "max (ilog2 \<bar>of_int n\<bar> - 52) (- 1074) = - int k"
    using assms(1) b1 b53 by (simp add: il k_def)
  have pk: "pow2 (- int k) = 1 / 2 ^ k"
    by (cases "k = 0") (simp_all add: pow2_def)
  have q: "\<bar>of_int n :: rat\<bar> / pow2 (- int k) = of_int (n * 2 ^ k)"
    using assms(1) by (simp add: pk)
  have v: "of_int (round_half_even (\<bar>of_int n :: rat\<bar> / pow2 (- int k))) * pow2 (- int k) = of_int n"
    by (simp only: q round_half_even_of_int) (simp add: pk)
  have "(of_int n :: rat) < of_int (2 ^ 1024)"
    using assms(2) by (simp only: of_int_less_iff) simp
  then have big: "\<not> pow2 1024 \<le> (of_int n :: rat)"
    by (simp add: pow2_def)
  have nz: "(of_int n :: rat) \<noteq> 0" and sg: "sgn (of_int n :: rat) = 1"
    using assms(1) by simp_all
  show ?thesis
    unfolding to_double_def Let_def e v
    using nz sg big by simp
qed

lemma decimal_StringToNumber:
  assumes "0 \<le> n" "n < 2 ^ 53"
  shows "StringToNumber (decimal (nat n)) = Fin (of_int n)"
proof -
  have "StringToNumber (decimal (nat n)) = to_double (of_nat (nat n))"
    using decimal_digits [of "nat n"] digits_StringToNumber [of "decimal (nat n)"] by simp
  also have "(of_nat (nat n) :: rat) = of_int n"
    using assms(1) by simp
  also have "to_double (of_int n) = Fin (of_int n)"
  proof (cases "n = 0")
    case True
    then show ?thesis by (simp add: to_double_def)
  next
    case False
    with assms show ?thesis by (intro to_double_of_int) simp_all
  qed
  finally show ?thesis .
qed

lemma native_enum_string:
  "ZodDefault dv (ZodNativeEnum vals) p (JStr s) =
     (if JStr s \<in> set vals then (OK (JStr s), []) else (INVALID, [ZodIssue invalid_enum_value p []]))"
  by (simp add: ZodDefault_def ZodNativeEnum_def)

lemma public_key_undefined:
  "public_key_schema e p JUndefined = (OK (JStr (LIQPAY_PUBLIC_KEY e)), [])"
  by (simp add: public_key_schema_def ZodDefault_def refine_def ZodString_def)

lemma public_key_string:
  "public_key_schema e p (JStr s) =
     (if s = LIQPAY_PUBLIC_KEY e then (OK (JStr s), []) else (DIRTY (JStr s), [ZodIssue custom p []]))"
  by (simp add: public_key_schema_def ZodDefault_def refine_def ZodString_def)

lemma plain_string_default:
  "ZodDefault dv (ZodString []) p (JStr s) = (OK (JStr s), [])"
  by (simp add: ZodDefault_def ZodString_def)

lemma fields_valid_iff:
  "fields_valid e props \<longleftrightarrow> (\<forall>(k, sch) \<in> set (CNB_shape e). isValid (fst (sch [k] (get_prop props k))))"
  by (simp add: fields_valid_def list_all_iff)

lemma CNB_shape_functional:
  "(k, s) \<in> set (CNB_shape e) \<Longrightarrow> (k, s') \<in> set (CNB_shape e) \<Longrightarrow> s = s'"
  by (auto simp: CNB_shape_eq)

lemma others_valid_fields_valid:
  assumes "others_valid e excluded props"
    and "\<forall>k \<in> set excluded. \<forall>sch. (k, sch) \<in> set (CNB_shape e) \<longrightarrow> isValid (fst (sch [k] (get_prop props k)))"
  shows "fields_valid e props"
  using assms by (auto simp: others_valid_def fields_valid_iff list_all_iff)

lemma CNB_accept:
  assumes "fields_valid e props"
  shows "safeParse (CNBSchema e) (JObject props) = Inr (JObject (foldl add_pair [] (field_results e props)))"
  using assms by (simp add: safeParse_CNB_Inr_iff)

lemma CNB_field_accept:
  assumes "(k, sch) \<in> set (CNB_shape e)" "others_valid e [k] props"
    and "fst (sch [k] (get_prop props k)) = OK x" "x \<noteq> JUndefined"
  shows "\<exists>out. safeParse (CNBSchema e) (JObject props) = Inr (JObject out) \<and> map_of out k = Some x"
proof -
  have "fields_valid e props"
  proof (rule others_valid_fields_valid [OF assms(2)], intro ballI allI impI)
    fix k' sch'
    assume "k' \<in> set [k]" "(k', sch') \<in> set (CNB_shape e)"
    then have "sch' = sch" using assms(1) CNB_shape_functional by auto
    with assms(3) \<open>k' \<in> set [k]\<close> show "isValid (fst (sch' [k'] (get_prop props k')))" by simp
  qed
  from CNB_accept [OF this] final_field [OF assms(1,3,4)] show ?thesis by simp
qed

lemma CNB_field_reject:
  assumes "(k, sch) \<in> set (CNB_shape e)" "\<not> isValid (fst (sch [k] (get_prop props k)))"
    and "i \<in> set (snd (sch [k] (get_prop props k)))"
  shows "\<exists>iss. safeParse (CNBSchema e) (JObject props) = Inl iss \<and> i \<in> set iss"
proof -
  have "\<not> fields_valid e props"
    using assms(1,2) by (auto simp: fields_valid_iff)
  moreover have "i \<in> set (field_issues e props)"
    using assms(1,3) by (force simp: field_issues_def)
  ultimately show ?thesis by (simp add: safeParse_CNB_Inl)
qed

lemma CNB_success_field:
  assumes "safeParse (CNBSchema e) d = Inr out" "(k, sch) \<in> set (CNB_shape e)"
  shows "\<exists>props outp x. d = JObject props \<and> out = JObject outp
           \<and> fst (sch [k] (get_prop props k)) = OK x
           \<and> (x \<noteq> JUndefined \<longrightarrow> map_of outp k = Some x)"
proof -
  from assms(1) obtain props where p: "d = JObject props" "fields_valid e props"
    "out = JObject (foldl add_pair [] (field_results e props))"
    by (auto simp: safeParse_CNB_Inr_iff)
  from p(2) assms(2) have "isValid (fst (sch [k] (get_prop props k)))"
    by (auto simp: fields_valid_iff)
  then obtain x where x: "fst (sch [k] (get_prop props k)) = OK x"
    by (cases "fst (sch [k] (get_prop props k))") simp_all
  with p final_field [OF assms(2) x] show ?thesis by auto
qed

lemma in_shape:
  "(js ''amount'', amount_schema) \<in> set (CNB_shape e)"
  "(js ''currency'', currency_schema) \<in> set (CNB_shape e)"
  "(js ''action'', action_schema) \<in> set (CNB_shape e)"
  "(js ''subscribe_periodicity'', subscribe_periodicity_schema) \<in> set (CNB_shape e)"
  "(js ''public_key'', public_key_schema e) \<in> set (CNB_shape e)"
  "(js ''version'', version_schema) \<in> set (CNB_shape e)"
  "(js ''description'', description_schema) \<in> set (CNB_shape e)"
  "(js ''language'', language_schema) \<in> set (CNB_shape e)"
  "(js ''subscribe_date_start'', subscribe_date_start_schema) \<in> set (CNB_shape e)"
  "(js ''result_url'', result_url_schema e) \<in> set (CNB_shape e)"
  by (simp_all add: CNB_shape_eq)

lemma amount_invalid_issue:
  assumes "v = JNum x \<and> \<not> integer_between 1 10000 x \<or> v = JStr s \<and> \<not> integer_between 1 10000 (StringToNumber s)
           \<or> v \<noteq> JUndefined \<and> (\<forall>s. v \<noteq> JStr s) \<and> (\<forall>x. v \<noteq> JNum x)"
  shows "\<not> isValid (fst (amount_schema p v)) \<and> (\<exists>i \<in> set (snd (amount_schema p v)). path i = p)"
  using assms
  by (auto simp: amount_number amount_string amount_other union_invalid_def split: if_splits)

lemma version_invalid_issue:
  assumes "v = JNum x \<and> \<not> integer_between 1 3 x \<or> v = JStr s \<and> \<not> integer_between 1 3 (StringToNumber s)
           \<or> v \<noteq> JUndefined \<and> (\<forall>s. v \<noteq> JStr s) \<and> (\<forall>x. v \<noteq> JNum x)"
  shows "\<not> isValid (fst (version_schema p v)) \<and> (\<exists>i \<in> set (snd (version_schema p v)). path i = p)"
  using assms
  by (auto simp: version_number version_string version_other union_invalid_def split: if_splits)

lemma amount_valid_value:
  assumes "fst (amount_schema p v) = OK x"
  shows "\<exists>n. x = JNum (Fin (of_int n)) \<and> 1 \<le> n \<and> n \<le> 10000"
proof (cases v)
  case JUndefined
  with assms have "x = JNum (Fin (of_int 20))" by (simp add: amount_undefined)
  then show ?thesis by (intro exI [of _ 20]) simp
next
  case (JNum y)
  with assms show ?thesis
    by (auto simp: amount_number integer_between_iff split: if_splits)
next
  case (JStr s)
  with assms show ?thesis
    by (auto simp: amount_string integer_between_iff split: if_splits)
qed (use assms in \<open>simp_all add: amount_other\<close>)

lemma enum_field_generic:
  assumes "(k, ZodDefault dv (ZodNativeEnum vals)) \<in> set (CNB_shape e)" "get_prop props k = JStr s"
  shows "(JStr s \<in> set vals \<longrightarrow> others_valid e [k] props
           \<longrightarrow> (\<exists>out. safeParse (CNBSchema e) (JObject props) = Inr (JObject out)
                  \<and> map_of out k = Some (JStr s)))
       \<and> (JStr s \<notin> set vals
           \<longrightarrow> (\<exists>iss. safeParse (CNBSchema e) (JObject props) = Inl iss
                  \<and> ZodIssue invalid_enum_value [k] [] \<in> set iss))"
proof (intro conjI impI)
  assume "JStr s \<in> set vals" "others_valid e [k] props"
  then show "\<exists>out. safeParse (CNBSchema e) (JObject props) = Inr (JObject out) \<and> map_of out k = Some (JStr s)"
    using assms by (intro CNB_field_accept [OF assms(1)]) (simp_all add: native_enum_string)
next
  assume "JStr s \<notin> set vals"
  then show "\<exists>iss. safeParse (CNBSchema e) (JObject props) = Inl iss \<and> ZodIssue invalid_enum_value [k] [] \<in> set iss"
    using assms by (intro CNB_field_reject [OF assms(1)]) (simp_all add: native_enum_string)
qed

lemma abc_NaN: "StringToNumber (js ''abc'') = NaN"
  by (simp add: StringToNumber_def js_def trim_def isStrWhiteSpaceChar_def
      parse_NonDecimalIntegerLiteral_def parse_StrDecimalLiteral_def
      parse_StrUnsignedDecimalLiteral_def isDigit_def digit_of_def)

section \<open>The claims\<close>

text \<open>
  C3.  Validating the empty object succeeds and yields exactly the documented defaults:
  amount 20, currency UAH, action pay, subscribe_periodicity month, the configured public
  key, version 3, the fixed description, language uk, subscribe_date_start
  \<^verbatim>\<open>2024-01-01 00:00:00\<close> and, as result_url, the configured base URL followed by
  \<^verbatim>\<open>/donate/thankyou\<close>.  Every default passes its own field's validation: supplying the
  ten defaults explicitly is accepted and returns them unchanged.
\<close>

theorem C3_empty_input_yields_defaults:
  "safeParse (CNBSchema \<lparr>env_LIQPAY_PUBLIC_KEY = Some key, env_URL = Some baseUrl\<rparr>) (JObject [])
     = Inr (documented_defaults key baseUrl)
   \<and> safeParse (CNBSchema \<lparr>env_LIQPAY_PUBLIC_KEY = Some key, env_URL = Some baseUrl\<rparr>)
         (documented_defaults key baseUrl)
     = Inr (documented_defaults key baseUrl)"
proof
  show "safeParse (CNBSchema \<lparr>env_LIQPAY_PUBLIC_KEY = Some key, env_URL = Some baseUrl\<rparr>) (JObject [])
     = Inr (documented_defaults key baseUrl)"
    by (simp add: eval_defs documented_defaults_def)
next
  show "safeParse (CNBSchema \<lparr>env_LIQPAY_PUBLIC_KEY = Some key, env_URL = Some baseUrl\<rparr>)
         (documented_defaults key baseUrl)
     = Inr (documented_defaults key baseUrl)"
    by (simp add: eval_defs documented_defaults_def)
qed

theorem C3_empty_input_yields_defaults_witness:
  "safeParse (CNBSchema \<lparr>env_LIQPAY_PUBLIC_KEY = Some (js ''sandbox_i1''),
                          env_URL = Some (js ''https://example.org'')\<rparr>) (JObject [])
     = Inr (documented_defaults (js ''sandbox_i1'') (js ''https://example.org''))"
  using C3_empty_input_yields_defaults [of "js ''sandbox_i1''" "js ''https://example.org''"]
  by simp

text \<open>
  C1.  An amount that is an integer in [1, 10000], supplied as a number or as a numeric
  string (its decimal numeral, or any string that \<^verbatim>\<open>Number\<close> converts to it), is accepted
  whenever the other fields are, and the validated amount is that number, as a number.
\<close>

theorem C1_integer_amount_accepted:
  assumes "1 \<le> n" "n \<le> 10000"
    and "get_prop props (js ''amount'') = JNum (Fin (of_int n))
         \<or> get_prop props (js ''amount'') = JStr (decimal (nat n))
         \<or> (\<exists>s. get_prop props (js ''amount'') = JStr s \<and> StringToNumber s = Fin (of_int n))"
    and "others_valid e [js ''amount''] props"
  shows "\<exists>out. safeParse (CNBSchema e) (JObject props) = Inr (JObject out)
           \<and> map_of out (js ''amount'') = Some (JNum (Fin (of_int n)))"
proof -
  have r: "integer_between 1 10000 (Fin (of_int n))"
    using assms(1,2) by (auto simp: integer_between_iff)
  have d: "StringToNumber (decimal (nat n)) = Fin (of_int n)"
    using assms(1,2) by (intro decimal_StringToNumber) simp_all
  have "fst (amount_schema [js ''amount''] (get_prop props (js ''amount''))) = OK (JNum (Fin (of_int n)))"
    using assms(3) r d by (auto simp: amount_number amount_string)
  from CNB_field_accept [OF in_shape(1) assms(4) this] show ?thesis by simp
qed

theorem C1_integer_amount_accepted_witness:
  "\<exists>out. safeParse (CNBSchema \<lparr>env_LIQPAY_PUBLIC_KEY = None, env_URL = None\<rparr>)
            (JObject [(js ''amount'', JStr (js ''42''))]) = Inr (JObject out)
         \<and> map_of out (js ''amount'') = Some (JNum (Fin 42))"
proof -
  have d: "js ''42'' = decimal (nat 42)"
    by (simp add: decimal.simps [of 42] decimal.simps [of 4] digit_char_def js_def)
  have o: "others_valid \<lparr>env_LIQPAY_PUBLIC_KEY = None, env_URL = None\<rparr> [js ''amount'']
             [(js ''amount'', JStr (js ''42''))]"
    by (simp add: others_valid_def CNB_shape_eq eval_defs)
  have g: "get_prop [(js ''amount'', JStr (js ''42''))] (js ''amount'') = JStr (decimal (nat 42))"
    by (simp add: get_prop_def d)
  show ?thesis
    using C1_integer_amount_accepted [of 42 "[(js ''amount'', JStr (js ''42''))]"
        "\<lparr>env_LIQPAY_PUBLIC_KEY = None, env_URL = None\<rparr>"] o g
    by simp
qed

text \<open>
  C2.  An amount whose numeric value (the number itself, or what \<^verbatim>\<open>Number\<close> makes of the
  string) is not an integer in [1, 10000] is rejected, whatever the other fields are, and
  an issue whose path is the amount field is reported: this covers numbers out of range,
  non-integers, the infinities and strings that convert to \<open>NaN\<close>.  Consequently every
  validated request carries an amount that is an integer in [1, 10000].
\<close>

theorem C2_bad_amount_rejected:
  "((get_prop props (js ''amount'') = JNum x \<and> \<not> integer_between 1 10000 x
      \<or> get_prop props (js ''amount'') = JStr s \<and> \<not> integer_between 1 10000 (StringToNumber s))
     \<longrightarrow> (\<exists>iss. safeParse (CNBSchema e) (JObject props) = Inl iss
            \<and> (\<exists>i \<in> set iss. path i = [js ''amount''])))
   \<and> (safeParse (CNBSchema e) d = Inr out
     \<longrightarrow> (\<exists>outp n. out = JObject outp
            \<and> map_of outp (js ''amount'') = Some (JNum (Fin (of_int n))) \<and> 1 \<le> n \<and> n \<le> 10000))"
proof (intro conjI impI)
  assume "get_prop props (js ''amount'') = JNum x \<and> \<not> integer_between 1 10000 x
      \<or> get_prop props (js ''amount'') = JStr s \<and> \<not> integer_between 1 10000 (StringToNumber s)"
  then have "\<not> isValid (fst (amount_schema [js ''amount''] (get_prop props (js ''amount''))))
      \<and> (\<exists>i \<in> set (snd (amount_schema [js ''amount''] (get_prop props (js ''amount'')))). path i = [js ''amount''])"
    by (intro amount_invalid_issue [where x = x and s = s]) auto
  then obtain i where i: "\<not> isValid (fst (amount_schema [js ''amount''] (get_prop props (js ''amount''))))"
      "i \<in> set (snd (amount_schema [js ''amount''] (get_prop props (js ''amount''))))" "path i = [js ''amount'']"
    by auto
  from CNB_field_reject [where e = e, OF in_shape(1) i(1,2)] i(3)
  show "\<exists>iss. safeParse (CNBSchema e) (JObject props) = Inl iss \<and> (\<exists>i \<in> set iss. path i = [js ''amount''])"
    by auto
next
  assume "safeParse (CNBSchema e) d = Inr out"
  from CNB_success_field [where e = e, OF this in_shape(1)]
  obtain props outp x where h: "d = JObject props" "out = JObject outp"
      "fst (amount_schema [js ''amount''] (get_prop props (js ''amount''))) = OK x"
      "x \<noteq> JUndefined \<longrightarrow> map_of outp (js ''amount'') = Some x"
    by blast
  from amount_valid_value [OF h(3)] obtain n where "x = JNum (Fin (of_int n))" "1 \<le> n" "n \<le> 10000"
    by blast
  with h show "\<exists>outp n. out = JObject outp
      \<and> map_of outp (js ''amount'') = Some (JNum (Fin (of_int n))) \<and> 1 \<le> n \<and> n \<le> 10000"
    by auto
qed

theorem C2_bad_amount_rejected_witness:
  "(\<exists>iss. safeParse (CNBSchema \<lparr>env_LIQPAY_PUBLIC_KEY = None, env_URL = None\<rparr>)
             (JObject [(js ''amount'', JNum (Fin 10001))]) = Inl iss
          \<and> (\<exists>i \<in> set iss. path i = [js ''amount'']))
   \<and> (\<exists>outp n. documented_defaults [] (js ''undefined'') = JObject outp
          \<and> map_of outp (js ''amount'') = Some (JNum (Fin (of_int n))) \<and> 1 \<le> n \<and> n \<le> 10000)"
proof -
  have g: "get_prop [(js ''amount'', JNum (Fin 10001))] (js ''amount'') = JNum (Fin 10001)"
    by (simp add: get_prop_def)
  have r: "\<not> integer_between 1 10000 (Fin 10001)"
    by (simp add: integer_between_def)
  have s: "safeParse (CNBSchema \<lparr>env_LIQPAY_PUBLIC_KEY = None, env_URL = None\<rparr>) (JObject [])
      = Inr (documented_defaults [] (js ''undefined''))"
    by (simp add: eval_defs documented_defaults_def)
  from C2_bad_amount_rejected [of "[(js ''amount'', JNum (Fin 10001))]" "Fin 10001" "[]"
      "\<lparr>env_LIQPAY_PUBLIC_KEY = None, env_URL = None\<rparr>" "JObject []"
      "documented_defaults [] (js ''undefined'')"] g r s
  show ?thesis by simp
qed

text \<open>
  C4.  Each enum field accepts exactly the strings of its closed set: a member is accepted
  (whenever the other fields are) and returned unchanged; any other string, such as
  \<^verbatim>\<open>GBP\<close> for the currency, is rejected with an \<^verbatim>\<open>invalid_enum_value\<close> issue on that field,
  whatever the other fields are.
\<close>

theorem C4_enum_fields_closed:
  assumes "(field, literals) \<in> set enum_fields" "get_prop props field = JStr s"
  shows "(s \<in> set literals \<longrightarrow> others_valid e [field] props
           \<longrightarrow> (\<exists>out. safeParse (CNBSchema e) (JObject props) = Inr (JObject out)
                  \<and> map_of out field = Some (JStr s)))
       \<and> (s \<notin> set literals
           \<longrightarrow> (\<exists>iss. safeParse (CNBSchema e) (JObject props) = Inl iss
                  \<and> ZodIssue invalid_enum_value [field] [] \<in> set iss))"
proof -
  from assms(1) consider
      "field = js ''currency''" "literals = [js ''UAH'', js ''USD'', js ''EUR'']"
    | "field = js ''action''" "literals = [js ''pay'', js ''hold'', js ''subscribe'', js ''paydonate'']"
    | "field = js ''subscribe_periodicity''" "literals = [js ''day'', js ''month'', js ''year'']"
    | "field = js ''language''" "literals = [js ''uk'', js ''en'']"
    by (auto simp: enum_fields_def)
  then show ?thesis
  proof cases
    case 1
    have m: "JStr s \<in> set PaymentCurrency \<longleftrightarrow> s \<in> set literals"
      by (auto simp: PaymentCurrency_def 1)
    have g: "get_prop props (js ''currency'') = JStr s"
      using assms(2) 1 by simp
    show ?thesis
      using enum_field_generic [OF in_shape(2) [of e, unfolded currency_schema_def] g] m
      unfolding 1(1) by blast
  next
    case 2
    have m: "JStr s \<in> set PaymentAction \<longleftrightarrow> s \<in> set literals"
      by (auto simp: PaymentAction_def 2)
    have g: "get_prop props (js ''action'') = JStr s"
      using assms(2) 2 by simp
    show ?thesis
      using enum_field_generic [OF in_shape(3) [of e, unfolded action_schema_def] g] m
      unfolding 2(1) by blast
  next
    case 3
    have m: "JStr s \<in> set LiqpayPeriodicity \<longleftrightarrow> s \<in> set literals"
      by (auto simp: LiqpayPeriodicity_def 3)
    have g: "get_prop props (js ''subscribe_periodicity'') = JStr s"
      using assms(2) 3 by simp
    show ?thesis
      using enum_field_generic [OF in_shape(4) [of e, unfolded subscribe_periodicity_schema_def] g] m
      unfolding 3(1) by blast
  next
    case 4
    have m: "JStr s \<in> set PaymentLanguage \<longleftrightarrow> s \<in> set literals"
      by (auto simp: PaymentLanguage_def 4)
    have g: "get_prop props (js ''language'') = JStr s"
      using assms(2) 4 by simp
    show ?thesis
      using enum_field_generic [OF in_shape(8) [of e, unfolded language_schema_def] g] m
      unfolding 4(1) by blast
  qed
qed

theorem C4_enum_fields_closed_witness:
  "(\<exists>out. safeParse (CNBSchema \<lparr>env_LIQPAY_PUBLIC_KEY = None, env_URL = None\<rparr>)
            (JObject [(js ''currency'', JStr (js ''USD''))]) = Inr (JObject out)
         \<and> map_of out (js ''currency'') = Some (JStr (js ''USD'')))
   \<and> (\<exists>iss. safeParse (CNBSchema \<lparr>env_LIQPAY_PUBLIC_KEY = None, env_URL = None\<rparr>)
            (JObject [(js ''currency'', JStr (js ''GBP''))]) = Inl iss
         \<and> ZodIssue invalid_enum_value [js ''currency''] [] \<in> set iss)"
proof -
  have f: "(js ''currency'', [js ''UAH'', js ''USD'', js ''EUR'']) \<in> set enum_fields"
    by (simp add: enum_fields_def)
  have o: "others_valid \<lparr>env_LIQPAY_PUBLIC_KEY = None, env_URL = None\<rparr> [js ''currency'']
             [(js ''currency'', JStr (js ''USD''))]"
    by (simp add: others_valid_def CNB_shape_eq eval_defs)
  have g: "get_prop [(js ''currency'', JStr (js ''USD''))] (js ''currency'') = JStr (js ''USD'')"
    "get_prop [(js ''currency'', JStr (js ''GBP''))] (js ''currency'') = JStr (js ''GBP'')"
    by (simp_all add: get_prop_def)
  from C4_enum_fields_closed [OF f g(1), of "\<lparr>env_LIQPAY_PUBLIC_KEY = None, env_URL = None\<rparr>"]
       C4_enum_fields_closed [OF f g(2), of "\<lparr>env_LIQPAY_PUBLIC_KEY = None, env_URL = None\<rparr>"] o
  show ?thesis by simp
qed

text \<open>
  C5.  When public_key is omitted, or supplied equal to the configured key, the field is
  accepted and the validated public_key is the configured key; when it is supplied as any
  other string, validation fails, whatever the other fields are, with the refinement's
  issue on the public_key field.
\<close>

theorem C5_public_key_must_match:
  "((get_prop props (js ''public_key'') = JUndefined
       \<or> get_prop props (js ''public_key'') = JStr (LIQPAY_PUBLIC_KEY e))
      \<longrightarrow> others_valid e [js ''public_key''] props
      \<longrightarrow> (\<exists>out. safeParse (CNBSchema e) (JObject props) = Inr (JObject out)
             \<and> map_of out (js ''public_key'') = Some (JStr (LIQPAY_PUBLIC_KEY e))))
   \<and> (get_prop props (js ''public_key'') = JStr s \<and> s \<noteq> LIQPAY_PUBLIC_KEY e
      \<longrightarrow> (\<exists>iss. safeParse (CNBSchema e) (JObject props) = Inl iss
             \<and> ZodIssue custom [js ''public_key''] [] \<in> set iss))"
proof (intro conjI impI)
  assume "get_prop props (js ''public_key'') = JUndefined
       \<or> get_prop props (js ''public_key'') = JStr (LIQPAY_PUBLIC_KEY e)"
    and o: "others_valid e [js ''public_key''] props"
  then have "fst (public_key_schema e [js ''public_key''] (get_prop props (js ''public_key'')))
      = OK (JStr (LIQPAY_PUBLIC_KEY e))"
    by (auto simp: public_key_undefined public_key_string)
  from CNB_field_accept [OF in_shape(5) o this]
  show "\<exists>out. safeParse (CNBSchema e) (JObject props) = Inr (JObject out)
             \<and> map_of out (js ''public_key'') = Some (JStr (LIQPAY_PUBLIC_KEY e))"
    by simp
next
  assume "get_prop props (js ''public_key'') = JStr s \<and> s \<noteq> LIQPAY_PUBLIC_KEY e"
  then show "\<exists>iss. safeParse (CNBSchema e) (JObject props) = Inl iss
             \<and> ZodIssue custom [js ''public_key''] [] \<in> set iss"
    by (intro CNB_field_reject [OF in_shape(5)]) (simp_all add: public_key_string)
qed

theorem C5_public_key_must_match_witness:
  "(\<exists>out. safeParse (CNBSchema \<lparr>env_LIQPAY_PUBLIC_KEY = Some (js ''sandbox_i1''), env_URL = None\<rparr>)
            (JObject []) = Inr (JObject out)
         \<and> map_of out (js ''public_key'') = Some (JStr (js ''sandbox_i1'')))
   \<and> (\<exists>iss. safeParse (CNBSchema \<lparr>env_LIQPAY_PUBLIC_KEY = Some (js ''sandbox_i1''), env_URL = None\<rparr>)
            (JObject [(js ''public_key'', JStr (js ''wrong-key''))]) = Inl iss
         \<and> ZodIssue custom [js ''public_key''] [] \<in> set iss)"
proof -
  have k: "LIQPAY_PUBLIC_KEY \<lparr>env_LIQPAY_PUBLIC_KEY = Some (js ''sandbox_i1''), env_URL = None\<rparr> = js ''sandbox_i1''"
    by (simp add: LIQPAY_PUBLIC_KEY_def)
  have o: "others_valid \<lparr>env_LIQPAY_PUBLIC_KEY = Some (js ''sandbox_i1''), env_URL = None\<rparr>
             [js ''public_key''] []"
    by (simp add: others_valid_def CNB_shape_eq eval_defs)
  have g: "get_prop [] (js ''public_key'') = JUndefined"
    "get_prop [(js ''public_key'', JStr (js ''wrong-key''))] (js ''public_key'') = JStr (js ''wrong-key'')"
    by (simp_all add: get_prop_def)
  from C5_public_key_must_match [of "[]" "\<lparr>env_LIQPAY_PUBLIC_KEY = Some (js ''sandbox_i1''), env_URL = None\<rparr>" "[]"]
       C5_public_key_must_match [of "[(js ''public_key'', JStr (js ''wrong-key''))]"
         "\<lparr>env_LIQPAY_PUBLIC_KEY = Some (js ''sandbox_i1''), env_URL = None\<rparr>" "js ''wrong-key''"]
       o g k
  show ?thesis by simp
qed

text \<open>
  C6.  A version supplied as a number, or as a string that \<^verbatim>\<open>Number\<close> converts to a number,
  is accepted (the other fields being valid) if and only if its numeric value is an
  integer in [1, 3], and then the validated version is that number; otherwise validation
  fails, whatever the other fields are, with an issue whose path is the version field.
\<close>

theorem C6_version_accepted_iff_in_range:
  assumes "get_prop props (js ''version'') = JNum x
           \<or> (\<exists>s. get_prop props (js ''version'') = JStr s \<and> StringToNumber s = x)"
  shows "(others_valid e [js ''version''] props
           \<longrightarrow> (success (safeParse (CNBSchema e) (JObject props)) \<longleftrightarrow> integer_between 1 3 x)
               \<and> (integer_between 1 3 x
                    \<longrightarrow> (\<exists>out. safeParse (CNBSchema e) (JObject props) = Inr (JObject out)
                           \<and> map_of out (js ''version'') = Some (JNum x))))
       \<and> (\<not> integer_between 1 3 x
           \<longrightarrow> (\<exists>iss. safeParse (CNBSchema e) (JObject props) = Inl iss
                  \<and> (\<exists>i \<in> set iss. path i = [js ''version''])))"
proof -
  have rej: "\<exists>iss. safeParse (CNBSchema e) (JObject props) = Inl iss
      \<and> (\<exists>i \<in> set iss. path i = [js ''version''])" if n: "\<not> integer_between 1 3 x"
  proof -
    from assms n obtain s where
      "get_prop props (js ''version'') = JNum x \<and> \<not> integer_between 1 3 x
       \<or> get_prop props (js ''version'') = JStr s \<and> \<not> integer_between 1 3 (StringToNumber s)"
      by auto
    then have "\<not> isValid (fst (version_schema [js ''version''] (get_prop props (js ''version''))))
      \<and> (\<exists>i \<in> set (snd (version_schema [js ''version''] (get_prop props (js ''version'')))).
            path i = [js ''version''])"
      by (intro version_invalid_issue [where x = x and s = s]) auto
    then obtain i where i: "\<not> isValid (fst (version_schema [js ''version''] (get_prop props (js ''version''))))"
      "i \<in> set (snd (version_schema [js ''version''] (get_prop props (js ''version''))))"
      "path i = [js ''version'']"
      by auto
    from CNB_field_reject [where e = e, OF in_shape(6) i(1,2)] i(3) show ?thesis by auto
  qed
  have acc: "\<exists>out. safeParse (CNBSchema e) (JObject props) = Inr (JObject out)
      \<and> map_of out (js ''version'') = Some (JNum x)"
    if y: "integer_between 1 3 x" and o: "others_valid e [js ''version''] props"
  proof -
    from y have "x \<noteq> NaN" by (auto simp: integer_between_def)
    with assms y have "fst (version_schema [js ''version''] (get_prop props (js ''version''))) = OK (JNum x)"
      by (auto simp: version_number version_string)
    from CNB_field_accept [OF in_shape(6) o this] show ?thesis by simp
  qed
  show ?thesis
  proof (intro conjI impI)
    assume o: "others_valid e [js ''version''] props"
    show "success (safeParse (CNBSchema e) (JObject props)) \<longleftrightarrow> integer_between 1 3 x"
    proof (cases "integer_between 1 3 x")
      case True
      with acc [OF True o] show ?thesis by (auto simp: success_def)
    next
      case False
      with rej [OF False] show ?thesis by (auto simp: success_def)
    qed
  next
    assume "others_valid e [js ''version''] props" "integer_between 1 3 x"
    then show "\<exists>out. safeParse (CNBSchema e) (JObject props) = Inr (JObject out)
      \<and> map_of out (js ''version'') = Some (JNum x)"
      using acc by simp
  next
    assume "\<not> integer_between 1 3 x"
    then show "\<exists>iss. safeParse (CNBSchema e) (JObject props) = Inl iss
      \<and> (\<exists>i \<in> set iss. path i = [js ''version''])"
      by (rule rej)
  qed
qed

theorem C6_version_accepted_iff_in_range_witness:
  "(\<exists>out. safeParse (CNBSchema \<lparr>env_LIQPAY_PUBLIC_KEY = None, env_URL = None\<rparr>)
            (JObject [(js ''version'', JStr (js ''2''))]) = Inr (JObject out)
         \<and> map_of out (js ''version'') = Some (JNum (Fin 2)))
   \<and> (\<exists>iss. safeParse (CNBSchema \<lparr>env_LIQPAY_PUBLIC_KEY = None, env_URL = None\<rparr>)
            (JObject [(js ''version'', JNum (Fin 4))]) = Inl iss
         \<and> (\<exists>i \<in> set iss. path i = [js ''version'']))"
proof -
  have d: "js ''2'' = decimal (nat 2)"
    by (simp add: decimal.simps [of 2] digit_char_def js_def)
  have n: "StringToNumber (js ''2'') = Fin 2"
    unfolding d using decimal_StringToNumber [of 2] by simp
  have o: "others_valid \<lparr>env_LIQPAY_PUBLIC_KEY = None, env_URL = None\<rparr> [js ''version'']
             [(js ''version'', JStr (js ''2''))]"
    by (simp add: others_valid_def CNB_shape_eq eval_defs)
  have g: "get_prop [(js ''version'', JStr (js ''2''))] (js ''version'') = JStr (js ''2'')"
    "get_prop [(js ''version'', JNum (Fin 4))] (js ''version'') = JNum (Fin 4)"
    by (simp_all add: get_prop_def)
  have r: "integer_between 1 3 (Fin 2)" "\<not> integer_between 1 3 (Fin 4)"
    by (simp_all add: integer_between_def)
  from C6_version_accepted_iff_in_range [of "[(js ''version'', JStr (js ''2''))]" "Fin 2"
         "\<lparr>env_LIQPAY_PUBLIC_KEY = None, env_URL = None\<rparr>"]
       C6_version_accepted_iff_in_range [of "[(js ''version'', JNum (Fin 4))]" "Fin 4"
         "\<lparr>env_LIQPAY_PUBLIC_KEY = None, env_URL = None\<rparr>"]
       o g r n
  show ?thesis by simp
qed

text \<open>
  C10.  subscribe_date_start and result_url accept every string: when both are supplied as
  strings (of any content) and the other fields are valid, validation succeeds and returns
  the two strings unchanged.  No timestamp or URL format is checked.
\<close>

theorem C10_date_and_url_are_free_strings:
  assumes "get_prop props (js ''subscribe_date_start'') = JStr a"
    and "get_prop props (js ''result_url'') = JStr b"
    and "others_valid e [js ''subscribe_date_start'', js ''result_url''] props"
  shows "\<exists>out. safeParse (CNBSchema e) (JObject props) = Inr (JObject out)
           \<and> map_of out (js ''subscribe_date_start'') = Some (JStr a)
           \<and> map_of out (js ''result_url'') = Some (JStr b)"
proof -
  have va: "fst (subscribe_date_start_schema [js ''subscribe_date_start'']
              (get_prop props (js ''subscribe_date_start''))) = OK (JStr a)"
    by (simp add: assms(1) subscribe_date_start_schema_def plain_string_default)
  have vb: "fst (result_url_schema e [js ''result_url''] (get_prop props (js ''result_url''))) = OK (JStr b)"
    by (simp add: assms(2) result_url_schema_def plain_string_default)
  have "fields_valid e props"
  proof (rule others_valid_fields_valid [OF assms(3)], intro ballI allI impI)
    fix k sch
    assume k: "k \<in> set [js ''subscribe_date_start'', js ''result_url'']" "(k, sch) \<in> set (CNB_shape e)"
    then consider "k = js ''subscribe_date_start''" "sch = subscribe_date_start_schema"
      | "k = js ''result_url''" "sch = result_url_schema e"
      by (auto simp: CNB_shape_eq)
    then show "isValid (fst (sch [k] (get_prop props k)))"
      using va vb by cases simp_all
  qed
  from CNB_accept [OF this] final_field [OF in_shape(9) va] final_field [OF in_shape(10) vb]
  show ?thesis by simp
qed

theorem C10_date_and_url_are_free_strings_witness:
  "\<exists>out. safeParse (CNBSchema \<lparr>env_LIQPAY_PUBLIC_KEY = None, env_URL = None\<rparr>)
           (JObject [(js ''subscribe_date_start'', JStr (js ''not a date'')),
                     (js ''result_url'', JStr [])]) = Inr (JObject out)
         \<and> map_of out (js ''subscribe_date_start'') = Some (JStr (js ''not a date''))
         \<and> map_of out (js ''result_url'') = Some (JStr [])"
proof -
  have o: "others_valid \<lparr>env_LIQPAY_PUBLIC_KEY = None, env_URL = None\<rparr>
             [js ''subscribe_date_start'', js ''result_url'']
             [(js ''subscribe_date_start'', JStr (js ''not a date'')), (js ''result_url'', JStr [])]"
    by (simp add: others_valid_def CNB_shape_eq eval_defs)
  have g: "get_prop [(js ''subscribe_date_start'', JStr (js ''not a date'')), (js ''result_url'', JStr [])]
             (js ''subscribe_date_start'') = JStr (js ''not a date'')"
    "get_prop [(js ''subscribe_date_start'', JStr (js ''not a date'')), (js ''result_url'', JStr [])]
             (js ''result_url'') = JStr []"
    by (simp_all add: get_prop_def)
  from C10_date_and_url_are_free_strings [OF g o] show ?thesis .
qed

text \<open>
  C9.  An amount given as the empty string or as a string of white space only converts to
  the number 0: the conversion itself succeeds (the union of the stringified-number schema
  returns a valid 0 without any issue), and the request is rejected by the range
  refinement alone, exactly as the number 0 is.  Such an input never validates.
\<close>

theorem C9_blank_amount_fails_on_range:
  assumes "list_all isStrWhiteSpaceChar s" "get_prop props (js ''amount'') = JStr s"
  shows "StringToNumber s = Fin 0
       \<and> MaybeStringifiedNumberSchema [js ''amount''] (JStr s) = (OK (JNum (Fin 0)), [])
       \<and> amount_schema [js ''amount''] (JStr s) = (DIRTY (JNum (Fin 0)), [ZodIssue custom [js ''amount''] []])
       \<and> amount_schema [js ''amount''] (JStr s) = amount_schema [js ''amount''] (JNum (Fin 0))
       \<and> (\<exists>iss. safeParse (CNBSchema e) (JObject props) = Inl iss
             \<and> ZodIssue custom [js ''amount''] [] \<in> set iss)"
proof -
  have z: "StringToNumber s = Fin 0"
    by (rule spaces_StringToNumber [OF assms(1)])
  have r: "\<not> integer_between 1 10000 (Fin 0)"
    by (simp add: integer_between_def)
  have a: "amount_schema [js ''amount''] (JStr s) = (DIRTY (JNum (Fin 0)), [ZodIssue custom [js ''amount''] []])"
    by (simp add: amount_string z r)
  have b: "amount_schema [js ''amount''] (JNum (Fin 0)) = (DIRTY (JNum (Fin 0)), [ZodIssue custom [js ''amount''] []])"
    by (simp add: amount_number r)
  have "\<exists>iss. safeParse (CNBSchema e) (JObject props) = Inl iss \<and> ZodIssue custom [js ''amount''] [] \<in> set iss"
    by (intro CNB_field_reject [OF in_shape(1)]) (simp_all add: assms(2) a)
  with z a b show ?thesis by (simp add: MSN_string)
qed

theorem C9_blank_amount_fails_on_range_witness:
  "StringToNumber [0x20, 0x9] = Fin 0
   \<and> (\<exists>iss. safeParse (CNBSchema \<lparr>env_LIQPAY_PUBLIC_KEY = None, env_URL = None\<rparr>)
              (JObject [(js ''amount'', JStr [0x20, 0x9])]) = Inl iss
         \<and> ZodIssue custom [js ''amount''] [] \<in> set iss)"
proof -
  have w: "list_all isStrWhiteSpaceChar [0x20, 0x9]"
    by (simp add: isStrWhiteSpaceChar_def)
  have g: "get_prop [(js ''amount'', JStr [0x20, 0x9])] (js ''amount'') = JStr [0x20, 0x9]"
    by (simp add: get_prop_def)
  from C9_blank_amount_fails_on_range [OF w g, of "\<lparr>env_LIQPAY_PUBLIC_KEY = None, env_URL = None\<rparr>"]
  show ?thesis by simp
qed

text \<open>
  C7, as stated, fails.  The claim gives a string that does not convert to a number a
  failure kind of its own, distinguishable from the failure of a number out of range.  In
  the code the input \<^verbatim>\<open>{amount: 'abc'}\<close> is rejected through two refinements (not \<open>NaN\<close>,
  then the range), each reporting a \<^verbatim>\<open>custom\<close> issue on the amount field; the input
  \<^verbatim>\<open>{amount: 0}\<close> is rejected with one such issue.  The issues reported are the same.
\<close>

theorem C7_counterexample:
  "safeParse (CNBSchema \<lparr>env_LIQPAY_PUBLIC_KEY = None, env_URL = None\<rparr>)
     (JObject [(js ''amount'', JStr (js ''abc''))])
     = Inl [ZodIssue custom [js ''amount''] [], ZodIssue custom [js ''amount''] []]
   \<and> safeParse (CNBSchema \<lparr>env_LIQPAY_PUBLIC_KEY = None, env_URL = None\<rparr>)
       (JObject [(js ''amount'', JNum (Fin 0))])
     = Inl [ZodIssue custom [js ''amount''] []]
   \<and> issue_kinds (safeParse (CNBSchema \<lparr>env_LIQPAY_PUBLIC_KEY = None, env_URL = None\<rparr>)
       (JObject [(js ''amount'', JStr (js ''abc''))]))
     = issue_kinds (safeParse (CNBSchema \<lparr>env_LIQPAY_PUBLIC_KEY = None, env_URL = None\<rparr>)
       (JObject [(js ''amount'', JNum (Fin 0))]))"
proof -
  have a: "safeParse (CNBSchema \<lparr>env_LIQPAY_PUBLIC_KEY = None, env_URL = None\<rparr>)
     (JObject [(js ''amount'', JStr (js ''abc''))])
     = Inl [ZodIssue custom [js ''amount''] [], ZodIssue custom [js ''amount''] []]"
    by (simp add: eval_defs isNaN_def abc_NaN)
  have b: "safeParse (CNBSchema \<lparr>env_LIQPAY_PUBLIC_KEY = None, env_URL = None\<rparr>)
       (JObject [(js ''amount'', JNum (Fin 0))])
     = Inl [ZodIssue custom [js ''amount''] []]"
    by (simp add: eval_defs isNaN_def)
  show ?thesis
    unfolding a b by (simp add: issue_kinds_def)
qed

text \<open>
  C7, amended.  For amount and for version, a raw value that is present and is neither a
  string nor a number is rejected with one \<^verbatim>\<open>invalid_union\<close> issue on the field, a code
  different from the \<^verbatim>\<open>custom\<close> issue that a number outside the range gets.  A string that
  does not convert to a number is rejected on the field too, but with \<^verbatim>\<open>custom\<close> issues,
  the code of a range failure.
\<close>

theorem C7_coercion_failures:
  "(v \<noteq> JUndefined \<and> (\<forall>s. v \<noteq> JStr s) \<and> (\<forall>x. v \<noteq> JNum x)
      \<longrightarrow> amount_schema p v = (INVALID, [union_invalid p])
          \<and> version_schema p v = (INVALID, [union_invalid p])
          \<and> (get_prop props (js ''amount'') = v
               \<longrightarrow> (\<exists>iss. safeParse (CNBSchema e) (JObject props) = Inl iss
                      \<and> union_invalid [js ''amount''] \<in> set iss)))
   \<and> (StringToNumber s = NaN
      \<longrightarrow> amount_schema p (JStr s) = (DIRTY (JNum NaN), [ZodIssue custom p [], ZodIssue custom p []])
          \<and> version_schema p (JStr s) = (DIRTY (JNum NaN), [ZodIssue custom p [], ZodIssue custom p []])
          \<and> (get_prop props (js ''amount'') = JStr s
               \<longrightarrow> (\<exists>iss. safeParse (CNBSchema e) (JObject props) = Inl iss
                      \<and> ZodIssue custom [js ''amount''] [] \<in> set iss)))
   \<and> (x \<noteq> NaN \<and> \<not> integer_between 1 10000 x
      \<longrightarrow> amount_schema p (JNum x) = (DIRTY (JNum x), [ZodIssue custom p []]))
   \<and> (x \<noteq> NaN \<and> \<not> integer_between 1 3 x
      \<longrightarrow> version_schema p (JNum x) = (DIRTY (JNum x), [ZodIssue custom p []]))
   \<and> code (union_invalid p) = invalid_union"
proof (intro conjI impI)
  assume v: "v \<noteq> JUndefined \<and> (\<forall>s. v \<noteq> JStr s) \<and> (\<forall>x. v \<noteq> JNum x)"
  then show a: "amount_schema p v = (INVALID, [union_invalid p])" for p
    by (simp add: amount_other)
  from v show "version_schema p v = (INVALID, [union_invalid p])"
    by (simp add: version_other)
  assume "get_prop props (js ''amount'') = v"
  then show "\<exists>iss. safeParse (CNBSchema e) (JObject props) = Inl iss \<and> union_invalid [js ''amount''] \<in> set iss"
    by (intro CNB_field_reject [OF in_shape(1)]) (simp_all add: a)
next
  assume n: "StringToNumber s = NaN"
  then show a: "amount_schema p (JStr s) = (DIRTY (JNum NaN), [ZodIssue custom p [], ZodIssue custom p []])" for p
    by (simp add: amount_string)
  from n show "version_schema p (JStr s) = (DIRTY (JNum NaN), [ZodIssue custom p [], ZodIssue custom p []])"
    by (simp add: version_string)
  assume "get_prop props (js ''amount'') = JStr s"
  then show "\<exists>iss. safeParse (CNBSchema e) (JObject props) = Inl iss \<and> ZodIssue custom [js ''amount''] [] \<in> set iss"
    by (intro CNB_field_reject [OF in_shape(1)]) (simp_all add: a)
next
  assume "x \<noteq> NaN \<and> \<not> integer_between 1 10000 x"
  then show "amount_schema p (JNum x) = (DIRTY (JNum x), [ZodIssue custom p []])"
    by (simp add: amount_number)
next
  assume "x \<noteq> NaN \<and> \<not> integer_between 1 3 x"
  then show "version_schema p (JNum x) = (DIRTY (JNum x), [ZodIssue custom p []])"
    by (simp add: version_number)
next
  show "code (union_invalid p) = invalid_union"
    by (simp add: union_invalid_def)
qed

theorem C7_coercion_failures_witness:
  "amount_schema [js ''amount''] (JBool True) = (INVALID, [union_invalid [js ''amount'']])
   \<and> (\<exists>iss. safeParse (CNBSchema \<lparr>env_LIQPAY_PUBLIC_KEY = None, env_URL = None\<rparr>)
              (JObject [(js ''amount'', JBool True)]) = Inl iss
         \<and> union_invalid [js ''amount''] \<in> set iss)
   \<and> amount_schema [js ''amount''] (JStr (js ''abc''))
       = (DIRTY (JNum NaN), [ZodIssue custom [js ''amount''] [], ZodIssue custom [js ''amount''] []])
   \<and> amount_schema [js ''amount''] (JNum (Fin 0))
       = (DIRTY (JNum (Fin 0)), [ZodIssue custom [js ''amount''] []])"
proof -
  have g: "get_prop [(js ''amount'', JBool True)] (js ''amount'') = JBool True"
    by (simp add: get_prop_def)
  have r: "\<not> integer_between 1 10000 (Fin 0)"
    by (simp add: integer_between_def)
  from C7_coercion_failures [of "JBool True" "[js ''amount'']" "[(js ''amount'', JBool True)]"
      "\<lparr>env_LIQPAY_PUBLIC_KEY = None, env_URL = None\<rparr>" "js ''abc''" "Fin 0"] g r abc_NaN
  show ?thesis by simp
qed

end
